theory Spec2Isabelle
  imports Main "HOL-Library.Sublist"
begin

section \<open>JavaScript values, strings and records\<close>

text \<open>
  Strings are lists of 8-bit code units, read as the Unicode code points 0..255
  (ISO-8859-1). Within that range \<open>String.prototype.toLowerCase\<close> changes exactly
  A..Z and the accented capitals 192..222 other than the multiplication sign 215, and the
  regular expression class \<open>\s\<close> (the same set that \<open>trim\<close> strips) is
  tab, line feed, vertical tab, form feed, carriage return, space and no-break space.
\<close>

definition toLowerCaseChar :: "char \<Rightarrow> char" where
  "toLowerCaseChar c =
     (let n = (of_char c :: nat)
      in if (65 \<le> n \<and> n \<le> 90) \<or> (192 \<le> n \<and> n \<le> 222 \<and> n \<noteq> 215)
         then char_of (n + 32) else c)"

definition toLowerCase :: "string \<Rightarrow> string" where
  "toLowerCase s = map toLowerCaseChar s"

definition isWhiteSpace :: "char \<Rightarrow> bool" where
  "isWhiteSpace c =
     (let n = (of_char c :: nat) in (9 \<le> n \<and> n \<le> 13) \<or> n = 32 \<or> n = 160)"

text \<open>\<open>searchText.match(/^\s+$/)\<close>: one or more characters, all of them white space.\<close>

definition matchesWhiteSpaceOnly :: "string \<Rightarrow> bool" where
  "matchesWhiteSpaceOnly s = (s \<noteq> [] \<and> list_all isWhiteSpace s)"

definition trim :: "string \<Rightarrow> string" where
  "trim s = rev (dropWhile isWhiteSpace (rev (dropWhile isWhiteSpace s)))"

text \<open>
  \<open>value.indexOf(t)\<close>: the first position at which \<open>t\<close> occurs in \<open>value\<close>, or -1.
  The third argument is the position of the first character of the remaining text.
\<close>

fun indexOfFrom :: "string \<Rightarrow> string \<Rightarrow> int \<Rightarrow> int" where
  "indexOfFrom [] t i = (if t = [] then i else - 1)"
| "indexOfFrom (c # cs) t i = (if prefix t (c # cs) then i else indexOfFrom cs t (i + 1))"

definition indexOf :: "string \<Rightarrow> string \<Rightarrow> int" where
  "indexOf s t = indexOfFrom s t 0"

text \<open>
  The values a property of a result record can hold. Records are \<open>any\<close> in the source;
  the model covers \<open>undefined\<close>, \<open>null\<close>, booleans, strings, and objects and functions,
  each of the latter given by the text its \<open>toString()\<close> returns. Numbers are left out
  (number formatting is floating point).
\<close>

datatype jsval = JUndefined | JNull | JBool bool | JStr string | JObject string

text \<open>
  A result record as a property read sees it: its own properties, and the properties it
  inherits through its prototype chain, nearest prototype first (an accessor counts with
  the value it returns).
\<close>

record item =
  ownProperties :: "(string \<times> jsval) list"
  inheritedProperties :: "(string \<times> jsval) list"

text \<open>
  \<open>result[property]\<close>: the own property if there is one, else the inherited one, else
  \<open>undefined\<close>.
\<close>

definition getProp :: "item \<Rightarrow> string \<Rightarrow> jsval" where
  "getProp r p =
     (case map_of (ownProperties r) p of
        Some v \<Rightarrow> v
      | None \<Rightarrow>
          (case map_of (inheritedProperties r) p of
             Some v \<Rightarrow> v
           | None \<Rightarrow> JUndefined))"

text \<open>
  \<open>(v || '').toString()\<close>: a falsy value (\<open>undefined\<close>, \<open>null\<close>, \<open>false\<close>, the
  empty string) is replaced by the empty string first; objects and functions are truthy.
\<close>

fun orEmptyToString :: "jsval \<Rightarrow> string" where
  "orEmptyToString (JStr s) = s"
| "orEmptyToString (JBool b) = (if b then ''true'' else [])"
| "orEmptyToString (JObject s) = s"
| "orEmptyToString JNull = []"
| "orEmptyToString JUndefined = []"

datatype error = TypeError | ConfigError

section \<open>Autocomplete component\<close>

text \<open>
  Modelled from the spec: the message kinds of \<open>SkyDropdownMessageType\<close>, declared in
  \<open>../dropdown\<close>; the spec lists Open, Close, FocusNextItem and FocusPreviousItem.
\<close>

datatype dropdown_message = Open | Close | FocusNextItem | FocusPreviousItem

text \<open>
  Modelled from the spec: \<open>SkyAutocompleteInputDirective\<close>, the bound input collaborator,
  declared in \<open>./autocomplete-input.directive\<close>. It exposes a settable current value and
  the descriptor property the component copies into it.
\<close>

record input_directive =
  inputValue :: "item option"
  inputDescriptorProperty :: string

text \<open>
  Modelled from the spec: \<open>SkyAutocompleteSearchResponse\<close> and
  \<open>SkyAutocompleteSearchFunction\<close>, declared in \<open>./types\<close>: a search function takes a
  string and returns an array of results or a promise of one. A promise supplied by the
  caller is named by a number; when it settles is the caller's business.
\<close>

datatype search_response = ResponseArray "item list" | ResponsePromise nat

datatype search_function = DefaultSearch | CustomSearch "string \<Rightarrow> search_response"

text \<open>
  What \<open>performSearch\<close> returns: \<open>Promise.resolve(array)\<close>, or the caller's promise.
\<close>

datatype promise = PromiseResolve "item list" | CallerPromise nat

text \<open>
  The component. After its inputs and fields come the effects it has on its
  collaborators, logged in order: the messages sent on \<open>dropdownMessageStream\<close>, the
  records emitted on \<open>selectionChange\<close>, the number of \<open>changeDetector.markForCheck()\<close>
  calls, the texts \<open>this.search\<close> was invoked with, and the subscriptions pushed.
\<close>

record autocomplete =
  search :: search_function
  data :: "item list option"
  propertiesToSearch :: "string list"
  searchResultsLimit :: "int option"
  descriptorProperty :: string
  searchTextMinimumCharacters :: int
  inputDirective :: "input_directive option"
  searchResults :: "item list option"
  searchText :: jsval
  isMouseEnter :: bool
  searchResultsIndex :: int
  subscriptions :: nat
  dropdownMessageStream :: "dropdown_message list"
  selectionChange :: "item list"
  markForCheck :: nat
  searchInvocations :: "string list"

text \<open>
  A handler either returns (with a value) or throws; both leave a component state behind.
\<close>

datatype 'a outcome = Returned 'a autocomplete | Thrown error autocomplete

subsection \<open>Default search\<close>

text \<open>
  \<open>this.searchResultsLimit && this.searchResultsLimit <= results.length\<close>: an unset limit
  and the limit 0 are falsy.
\<close>

definition limitReached :: "int option \<Rightarrow> item list \<Rightarrow> bool" where
  "limitReached limit results =
     (case limit of None \<Rightarrow> False
      | Some l \<Rightarrow> l \<noteq> 0 \<and> l \<le> int (length results))"

text \<open>The predicate handed to \<open>propertiesToSearch.find\<close>.\<close>

definition propertyMatches :: "string \<Rightarrow> item \<Rightarrow> string \<Rightarrow> bool" where
  "propertyMatches searchTextLower result property =
     (let v = toLowerCase (orEmptyToString (getProp result property))
      in indexOf v searchTextLower > - 1)"

text \<open>
  \<open>isMatch\<close> is what \<open>find\<close> returns, the first matching property name or
  \<open>undefined\<close>, and is then tested for truthiness: the empty name is falsy.
\<close>

definition isMatch :: "string list \<Rightarrow> string \<Rightarrow> item \<Rightarrow> bool" where
  "isMatch props searchTextLower result =
     (case find (propertyMatches searchTextLower result) props of
        None \<Rightarrow> False
      | Some property \<Rightarrow> property \<noteq> [])"

text \<open>
  The \<open>for\<close> loop, from index \<open>i\<close> with the results gathered so far. It returns the
  results together with the index at which it left the loop: the records at that index
  and beyond were never read.
\<close>

function defaultSearchLoop ::
  "item list \<Rightarrow> string list \<Rightarrow> int option \<Rightarrow> string \<Rightarrow> nat \<Rightarrow> item list \<Rightarrow> item list \<times> nat"
where
  "defaultSearchLoop d props limit searchTextLower i results =
     (if i < length d then
        (if limitReached limit results then (results, i)
         else
           (let result = d ! i
            in defaultSearchLoop d props limit searchTextLower (i + 1)
                 (if isMatch props searchTextLower result then results @ [result]
                  else results)))
      else (results, i))"
  by pat_completeness auto
termination
  by (relation "measure (\<lambda>(d, props, limit, searchTextLower, i, results). length d - i)") auto

declare defaultSearchLoop.simps [simp del]

text \<open>Reading \<open>this.data.length\<close> throws a TypeError when no dataset was supplied.\<close>

definition defaultSearchFunction :: "autocomplete \<Rightarrow> string \<Rightarrow> error + item list" where
  "defaultSearchFunction this text =
     (case data this of
        None \<Rightarrow> Inl TypeError
      | Some d \<Rightarrow>
          Inr (fst (defaultSearchLoop d (propertiesToSearch this) (searchResultsLimit this)
                      (toLowerCase text) 0 [])))"

text \<open>
  What the specification says the default search returns, in its own words: the records
  with some configured field whose text, in lower case, contains the lower-case query,
  in dataset order, cut off at the configured limit.
\<close>

definition specMatch :: "string list \<Rightarrow> string \<Rightarrow> item \<Rightarrow> bool" where
  "specMatch props text result =
     (\<exists>property \<in> set props.
        sublist (toLowerCase text) (toLowerCase (orEmptyToString (getProp result property))))"

definition specDefaultSearch :: "item list \<Rightarrow> string list \<Rightarrow> int \<Rightarrow> string \<Rightarrow> item list" where
  "specDefaultSearch d props limit text = take (nat limit) (filter (specMatch props text) d)"

subsection \<open>Dropdown messages and selection\<close>

definition sendDropdownMessage :: "dropdown_message \<Rightarrow> autocomplete \<Rightarrow> autocomplete" where
  "sendDropdownMessage type this =
     this\<lparr>dropdownMessageStream := dropdownMessageStream this @ [type]\<rparr>"

definition notifySelectionChange :: "item \<Rightarrow> autocomplete \<Rightarrow> autocomplete" where
  "notifySelectionChange selection this =
     this\<lparr>selectionChange := selectionChange this @ [selection]\<rparr>"

definition openDropdown :: "autocomplete \<Rightarrow> autocomplete" where
  "openDropdown this = sendDropdownMessage Open this"

definition closeDropdown :: "autocomplete \<Rightarrow> autocomplete" where
  "closeDropdown this =
     (let this1 = this\<lparr>searchResults := Some []\<rparr>;
          this2 = sendDropdownMessage Close this1
      in this2\<lparr>markForCheck := markForCheck this2 + 1\<rparr>)"

definition hasSearchResults :: "autocomplete \<Rightarrow> bool" where
  "hasSearchResults this =
     (case searchResults this of None \<Rightarrow> False | Some rs \<Rightarrow> length rs > 0)"

text \<open>
  \<open>this.searchResults[this.searchResultsIndex]\<close> is \<open>undefined\<close> outside the array,
  and reading a property of \<open>undefined\<close> throws a TypeError before anything is
  assigned. So does assigning \<open>value\<close> on an absent input directive, after the search
  text was set.
\<close>

definition selectActiveSearchResult :: "autocomplete \<Rightarrow> unit outcome" where
  "selectActiveSearchResult this =
     (if hasSearchResults this then
        (case searchResults this of
           None \<Rightarrow> Returned () this
         | Some rs \<Rightarrow>
             (let i = searchResultsIndex this
              in if 0 \<le> i \<and> i < int (length rs) then
                   (let result = rs ! nat i;
                        this1 = this\<lparr>searchText := getProp result (descriptorProperty this)\<rparr>
                    in case inputDirective this1 of
                         None \<Rightarrow> Thrown TypeError this1
                       | Some d \<Rightarrow>
                           Returned ()
                             (closeDropdown
                               (notifySelectionChange result
                                 (this1\<lparr>inputDirective :=
                                          Some (d\<lparr>inputValue := Some result\<rparr>)\<rparr>))))
                 else Thrown TypeError this))
      else Returned () this)"

subsection \<open>Lifecycle and event handlers\<close>

text \<open>
  \<open>ngAfterContentInit\<close> throws \<open>Error(...)\<close> when the content child is missing;
  otherwise it copies the descriptor property into the directive and pushes one
  subscription to the directive's \<open>searchTextChange\<close>.
\<close>

definition ngAfterContentInit :: "autocomplete \<Rightarrow> unit outcome" where
  "ngAfterContentInit this =
     (case inputDirective this of
        None \<Rightarrow> Thrown ConfigError this
      | Some d \<Rightarrow>
          Returned ()
            (this\<lparr>inputDirective := Some (d\<lparr>inputDescriptorProperty := descriptorProperty this\<rparr>),
                  subscriptions := subscriptions this + 1\<rparr>))"

text \<open>
  \<open>handleKeyDown\<close> returns whether it called \<open>event.preventDefault()\<close> and
  \<open>event.stopPropagation()\<close>.
\<close>

definition handleKeyDown :: "string \<Rightarrow> autocomplete \<Rightarrow> (bool \<times> bool) outcome" where
  "handleKeyDown eventKey this =
     (let key = toLowerCase eventKey
      in if key = ''arrowdown'' then
           Returned (True, False) (sendDropdownMessage FocusNextItem this)
         else if key = ''arrowup'' then
           Returned (True, False) (sendDropdownMessage FocusPreviousItem this)
         else if key = ''tab'' \<or> key = ''enter'' then
           (if hasSearchResults this then
              (case selectActiveSearchResult this of
                 Returned u this' \<Rightarrow> Returned (True, False) this'
               | Thrown e this' \<Rightarrow> Thrown e this')
            else Returned (False, False) this)
         else if key = ''escape'' then
           Returned (True, True) (closeDropdown this)
         else Returned (False, False) this)"

definition onDocumentClick :: "autocomplete \<Rightarrow> autocomplete" where
  "onDocumentClick this = (if \<not> isMouseEnter this then closeDropdown this else this)"

definition onMouseEnter :: "autocomplete \<Rightarrow> autocomplete" where
  "onMouseEnter this = this\<lparr>isMouseEnter := True\<rparr>"

definition onMouseLeave :: "autocomplete \<Rightarrow> autocomplete" where
  "onMouseLeave this = this\<lparr>isMouseEnter := False\<rparr>"

definition onMenuChange :: "int \<Rightarrow> autocomplete \<Rightarrow> autocomplete" where
  "onMenuChange activeIndex this = this\<lparr>searchResultsIndex := activeIndex\<rparr>"

definition onSearchResultClick :: "int \<Rightarrow> autocomplete \<Rightarrow> unit outcome" where
  "onSearchResultClick index this =
     selectActiveSearchResult (this\<lparr>searchResultsIndex := index\<rparr>)"

subsection \<open>Searching\<close>

text \<open>
  \<open>performSearch\<close> invokes \<open>this.search\<close> (logged) and wraps an array in a resolved
  promise. A custom search function is taken to return normally.
\<close>

definition performSearch :: "string \<Rightarrow> autocomplete \<Rightarrow> promise outcome" where
  "performSearch text this =
     (let this1 = this\<lparr>searchInvocations := searchInvocations this @ [text]\<rparr>
      in case search this of
           DefaultSearch \<Rightarrow>
             (case defaultSearchFunction this text of
                Inl e \<Rightarrow> Thrown e this1
              | Inr rs \<Rightarrow> Returned (PromiseResolve rs) this1)
         | CustomSearch f \<Rightarrow>
             (case f text of
                ResponseArray rs \<Rightarrow> Returned (PromiseResolve rs) this1
              | ResponsePromise p \<Rightarrow> Returned (CallerPromise p) this1))"

text \<open>
  The function handed to \<open>then\<close>. It runs when the promise is fulfilled with
  \<open>results\<close>: in the next microtask for \<open>PromiseResolve results\<close>, and whenever the
  caller fulfils it for a caller's promise.
\<close>

definition thenCallback :: "item list \<Rightarrow> autocomplete \<Rightarrow> autocomplete" where
  "thenCallback results this =
     (let this1 = this\<lparr>searchResults := Some results\<rparr>;
          this2 = openDropdown this1
      in this2\<lparr>markForCheck := markForCheck this2 + 1\<rparr>)"

text \<open>
  The results a promise can be fulfilled with: a resolved promise with its array, a
  caller's promise with whatever the caller decides.
\<close>

fun fulfilsWith :: "promise \<Rightarrow> item list \<Rightarrow> bool" where
  "fulfilsWith (PromiseResolve rs) results = (results = rs)"
| "fulfilsWith (CallerPromise n) results = True"

text \<open>
  \<open>searchTextChanged\<close> returns the promise on which it registered \<open>thenCallback\<close>,
  if it started a search.
\<close>

definition searchTextChanged :: "string \<Rightarrow> autocomplete \<Rightarrow> promise option outcome" where
  "searchTextChanged text this =
     (let isSearchTextEmpty = (text = [] \<or> matchesWhiteSpaceOnly text)
      in if isSearchTextEmpty then
           Returned None (closeDropdown (this\<lparr>searchText := JStr []\<rparr>))
         else
           (let isSearchTextLongEnough =
                  (int (length text) \<ge> searchTextMinimumCharacters this);
                isSearchTextDifferent = (JStr text \<noteq> searchText this)
            in if isSearchTextLongEnough \<and> isSearchTextDifferent then
                 (let text1 = trim text;
                      this1 = this\<lparr>searchText := JStr text1\<rparr>
                  in case performSearch text1 this1 of
                       Returned p this2 \<Rightarrow> Returned (Some p) this2
                     | Thrown e this2 \<Rightarrow> Thrown e this2)
               else Returned None this))"

section \<open>Infinite-scroll component\<close>

text \<open>
  A DOM element as \<open>getScrollableParent\<close> reads it: its identity, its inline
  \<open>style['overflow-y']\<close> (empty when not set) and its \<open>length\<close> property, which is
  \<open>undefined\<close> on most elements and the number of controls or options on a form or
  select element.
\<close>

record dom_element =
  elemId :: nat
  overflowY :: string
  elementLength :: "int option"

datatype viewport = Window | ParentElement dom_element

text \<open>\<open>element.length <= 0\<close>: false for \<open>undefined\<close>.\<close>

definition lengthLeZero :: "dom_element \<Rightarrow> bool" where
  "lengthLeZero element = (case elementLength element of None \<Rightarrow> False | Some n \<Rightarrow> n \<le> 0)"

text \<open>\<open>element.length <= 0 || element === document.body\<close>, with the identity of the body.\<close>

definition endsWalk :: "nat \<Rightarrow> dom_element \<Rightarrow> bool" where
  "endsWalk body element = (lengthLeZero element \<or> elemId element = body)"

definition isScrollable :: "dom_element \<Rightarrow> bool" where
  "isScrollable parentEl = (overflowY parentEl = ''auto'' \<or> overflowY parentEl = ''scroll'')"

text \<open>
  The walk up the parent chain. \<open>body\<close> is the identity of \<open>document.body\<close>, the list
  holds the ancestors of \<open>element\<close>, nearest first, and \<open>flag\<close> is the value of
  \<open>scrollableParentIsWindow\<close> before the call. The result is the viewport and the flag
  after the call. At the top of the chain \<open>parentElement\<close> is \<open>null\<close>, and reading its
  \<open>style\<close> throws a TypeError.
\<close>

fun getScrollableParent ::
  "nat \<Rightarrow> bool \<Rightarrow> dom_element \<Rightarrow> dom_element list \<Rightarrow> error + (viewport \<times> bool)"
where
  "getScrollableParent body flag element [] =
     (if endsWalk body element then Inr (Window, True)
      else Inl TypeError)"
| "getScrollableParent body flag element (parentEl # ancestors) =
     (if endsWalk body element then Inr (Window, True)
      else if isScrollable parentEl then Inr (ParentElement parentEl, flag)
      else getScrollableParent body flag parentEl ancestors)"

text \<open>
  The component: its input, its fields, and its effects. \<open>isLoading\<close> is the current
  value of the behaviour subject; \<open>onLoadEmitted\<close> counts the calls of \<open>onLoad.emit\<close>
  and \<open>isLoadingCleared\<close> the calls of \<open>isLoading.next(false)\<close>.
\<close>

record infinite_scroll =
  hasMore :: bool
  isLoading :: bool
  elementPosition :: int
  scrollableParentEl :: viewport
  scrollableParentIsWindow :: bool
  onLoadEmitted :: nat
  isLoadingCleared :: nat

text \<open>
  The layout when an event is handled, in whole pixels: the trigger's \<open>offsetTop\<close>, the
  window's \<open>scrollY\<close> and \<open>innerHeight\<close>, and the \<open>scrollTop\<close> and \<open>clientHeight\<close>
  of the scrollable parent element.
\<close>

record layout =
  offsetTop :: int
  scrollY :: int
  innerHeight :: int
  scrollTop :: int
  clientHeight :: int

definition ngOnInit ::
  "nat \<Rightarrow> dom_element \<Rightarrow> dom_element list \<Rightarrow> int \<Rightarrow> bool \<Rightarrow> error + infinite_scroll"
where
  "ngOnInit body nativeElement ancestors offsetTop0 hasMore0 =
     (case getScrollableParent body False nativeElement ancestors of
        Inl e \<Rightarrow> Inl e
      | Inr (parent, isWindow) \<Rightarrow>
          Inr \<lparr>hasMore = hasMore0, isLoading = False, elementPosition = offsetTop0,
               scrollableParentEl = parent, scrollableParentIsWindow = isWindow,
               onLoadEmitted = 0, isLoadingCleared = 0\<rparr>)"

text \<open>
  A window has no \<open>scrollTop\<close> or \<open>clientHeight\<close> and an element no \<open>scrollY\<close> or
  \<open>innerHeight\<close>: their sum is NaN and the comparison false.
\<close>

definition infiniteScrollInView :: "layout \<Rightarrow> infinite_scroll \<Rightarrow> bool" where
  "infiniteScrollInView l this =
     (if scrollableParentIsWindow this then
        (case scrollableParentEl this of
           Window \<Rightarrow> scrollY l + innerHeight l > offsetTop l
         | ParentElement e \<Rightarrow> False)
      else
        (case scrollableParentEl this of
           Window \<Rightarrow> False
         | ParentElement e \<Rightarrow> scrollTop l + clientHeight l > offsetTop l))"

definition startInfiniteScrollLoad :: "layout \<Rightarrow> infinite_scroll \<Rightarrow> infinite_scroll" where
  "startInfiniteScrollLoad l this =
     (if hasMore this \<and> \<not> isLoading this \<and> infiniteScrollInView l this then
        this\<lparr>isLoading := True, onLoadEmitted := onLoadEmitted this + 1\<rparr>
      else if isLoading this \<and> offsetTop l \<noteq> elementPosition this then
        this\<lparr>elementPosition := offsetTop l, isLoading := False,
             isLoadingCleared := isLoadingCleared this + 1\<rparr>
      else this)"

text \<open>The listener \<open>ngOnInit\<close> registers for \<open>DOMNodeInserted\<close>.\<close>

definition onDOMNodeInserted :: "layout \<Rightarrow> infinite_scroll \<Rightarrow> infinite_scroll" where
  "onDOMNodeInserted l this =
     (if isLoading this \<and> offsetTop l \<noteq> elementPosition this then
        this\<lparr>elementPosition := offsetTop l, isLoading := False,
             isLoadingCleared := isLoadingCleared this + 1\<rparr>
      else this)"

text \<open>
  What can happen to the component after \<open>ngOnInit\<close>: a scroll event or an insertion
  event on the viewport, each with the layout of that moment, or a new value of the
  \<open>hasMore\<close> input.
\<close>

datatype scroll_event = ScrollEvent layout | DOMNodeInsertedEvent layout | HasMoreInput bool

fun dispatch :: "scroll_event \<Rightarrow> infinite_scroll \<Rightarrow> infinite_scroll" where
  "dispatch (ScrollEvent l) this = startInfiniteScrollLoad l this"
| "dispatch (DOMNodeInsertedEvent l) this = onDOMNodeInserted l this"
| "dispatch (HasMoreInput b) this = this\<lparr>hasMore := b\<rparr>"

definition run :: "scroll_event list \<Rightarrow> infinite_scroll \<Rightarrow> infinite_scroll" where
  "run events this = fold dispatch events this"

text \<open>Load signals emitted and not yet answered by a reset of the loading flag.\<close>

definition outstanding :: "infinite_scroll \<Rightarrow> int" where
  "outstanding this = int (onLoadEmitted this) - int (isLoadingCleared this)"

section \<open>Example configurations\<close>

text \<open>
  What an object written as a literal inherits from \<open>Object.prototype\<close>: eleven
  functions and the accessor \<open>__proto__\<close>, which returns \<open>Object.prototype\<close> itself.
  The texts are those of \<open>toString()\<close> on these values (for the functions, in the form
  V8 prints them).
\<close>

definition objectPrototype :: "(string \<times> jsval) list" where
  "objectPrototype =
     [(''constructor'', JObject ''function Object() { [native code] }''),
      (''__defineGetter__'', JObject ''function __defineGetter__() { [native code] }''),
      (''__defineSetter__'', JObject ''function __defineSetter__() { [native code] }''),
      (''hasOwnProperty'', JObject ''function hasOwnProperty() { [native code] }''),
      (''__lookupGetter__'', JObject ''function __lookupGetter__() { [native code] }''),
      (''__lookupSetter__'', JObject ''function __lookupSetter__() { [native code] }''),
      (''isPrototypeOf'', JObject ''function isPrototypeOf() { [native code] }''),
      (''propertyIsEnumerable'', JObject ''function propertyIsEnumerable() { [native code] }''),
      (''toString'', JObject ''function toString() { [native code] }''),
      (''valueOf'', JObject ''function valueOf() { [native code] }''),
      (''__proto__'', JObject ''[object Object]''),
      (''toLocaleString'', JObject ''function toLocaleString() { [native code] }'')]"

definition objectLiteral :: "(string \<times> jsval) list \<Rightarrow> item" where
  "objectLiteral props = \<lparr>ownProperties = props, inheritedProperties = objectPrototype\<rparr>"

text \<open>The dataset and the settings of the example in the specification.\<close>

definition ann :: item where
  "ann = objectLiteral [(''name'', JStr ''Ann'')]"

definition anna :: item where
  "anna = objectLiteral [(''name'', JStr ''Anna'')]"

definition bob :: item where
  "bob = objectLiteral [(''name'', JStr ''Bob'')]"

definition exampleData :: "item list" where
  "exampleData = [ann, anna, bob]"

definition exampleComponent :: autocomplete where
  "exampleComponent =
     \<lparr>search = DefaultSearch, data = Some exampleData, propertiesToSearch = [''name''],
      searchResultsLimit = Some 2, descriptorProperty = ''name'',
      searchTextMinimumCharacters = 1,
      inputDirective = Some \<lparr>inputValue = None, inputDescriptorProperty = ''name''\<rparr>,
      searchResults = None, searchText = JUndefined, isMouseEnter = False,
      searchResultsIndex = 0, subscriptions = 0, dropdownMessageStream = [],
      selectionChange = [], markForCheck = 0, searchInvocations = []\<rparr>"

text \<open>
  A component showing two results with the second one active; and one in which a search
  produced two results, the dropdown reported the second as active, and a later search
  produced a single result.
\<close>

definition staleIndexComponent :: autocomplete where
  "staleIndexComponent =
     thenCallback [ann]
       (onMenuChange 1
         (thenCallback [ann, anna]
            exampleComponent))"

definition resultsComponent :: autocomplete where
  "resultsComponent =
     exampleComponent\<lparr>searchResults :=
                         Some [ann, anna],
                       searchResultsIndex := 1, searchText := JStr ''an'',
                       dropdownMessageStream := [Open]\<rparr>"

text \<open>
  A page: the trigger inside a plain block inside a block with \<open>overflow-y: auto\<close>
  inside the body; the same with the plain block replaced by a form without controls;
  and a layout in which the trigger, 500 pixels down, lies within a window 600 high.
\<close>

definition triggerEl :: dom_element where
  "triggerEl = \<lparr>elemId = 1, overflowY = [], elementLength = None\<rparr>"

definition plainEl :: dom_element where
  "plainEl = \<lparr>elemId = 2, overflowY = [], elementLength = None\<rparr>"

definition emptyFormEl :: dom_element where
  "emptyFormEl = \<lparr>elemId = 2, overflowY = [], elementLength = Some 0\<rparr>"

definition scrollEl :: dom_element where
  "scrollEl = \<lparr>elemId = 3, overflowY = ''auto'', elementLength = None\<rparr>"

definition bodyEl :: dom_element where
  "bodyEl = \<lparr>elemId = 4, overflowY = [], elementLength = None\<rparr>"

definition layout500 :: layout where
  "layout500 = \<lparr>offsetTop = 500, scrollY = 0, innerHeight = 600, scrollTop = 0, clientHeight = 600\<rparr>"

text \<open>
  The component as \<open>ngOnInit\<close> leaves it in a page without scrollable blocks when the
  trigger was 100 pixels down at that time, and the same component while loading.
\<close>

definition initAt100 :: infinite_scroll where
  "initAt100 =
     \<lparr>hasMore = True, isLoading = False, elementPosition = 100,
      scrollableParentEl = Window, scrollableParentIsWindow = True,
      onLoadEmitted = 0, isLoadingCleared = 0\<rparr>"

definition loadingAt100 :: infinite_scroll where
  "loadingAt100 = initAt100\<lparr>isLoading := True, onLoadEmitted := 1\<rparr>"

section \<open>Properties of the default search\<close>

lemma indexOfFrom_sublist: "0 \<le> i \<Longrightarrow> (indexOfFrom s t i > - 1) = sublist t s"
  by (induction s arbitrary: i) (auto simp: sublist_Cons_right)

lemma indexOf_sublist: "(indexOf s t > - 1) = sublist t s"
  by (simp add: indexOf_def indexOfFrom_sublist)

lemma find_None_iff_ex: "(find P xs = None) = (\<not> (\<exists>x \<in> set xs. P x))"
  by (induction xs) auto

lemma isMatch_specMatch:
  assumes "[] \<notin> set props"
  shows "isMatch props (toLowerCase text) result = specMatch props text result"
proof (cases "find (propertyMatches (toLowerCase text) result) props")
  case None
  moreover from None have "\<not> (\<exists>p \<in> set props. propertyMatches (toLowerCase text) result p)"
    by (simp add: find_None_iff_ex)
  ultimately show ?thesis
    by (simp add: isMatch_def specMatch_def propertyMatches_def indexOf_sublist)
next
  case (Some p)
  then have "p \<in> set props" and "propertyMatches (toLowerCase text) result p"
    by (auto simp: find_Some_iff)
  with Some assms show ?thesis
    by (auto simp: isMatch_def specMatch_def propertyMatches_def indexOf_sublist)
qed

lemma defaultSearchLoop_exit:
  assumes props: "[] \<notin> set props"
  shows "i \<le> length d \<Longrightarrow>
    \<exists>k. i \<le> k \<and> k \<le> length d \<and>
        defaultSearchLoop d props limit (toLowerCase text) i (filter (specMatch props text) (take i d))
          = (filter (specMatch props text) (take k d), k) \<and>
        (k < length d \<longrightarrow> limitReached limit (filter (specMatch props text) (take k d))) \<and>
        (\<forall>j. i \<le> j \<and> j < k \<longrightarrow> \<not> limitReached limit (filter (specMatch props text) (take j d)))"
proof (induction "length d - i" arbitrary: i)
  case 0
  then have "i = length d" by simp
  then show ?case
    by (intro exI[of _ i]) (auto simp: defaultSearchLoop.simps)
next
  case (Suc n)
  then have lt: "i < length d" by simp
  let ?m = "specMatch props text"
  show ?case
  proof (cases "limitReached limit (filter ?m (take i d))")
    case True
    with lt show ?thesis
      by (intro exI[of _ i]) (auto simp: defaultSearchLoop.simps)
  next
    case False
    have step: "(if isMatch props (toLowerCase text) (d ! i)
                 then filter ?m (take i d) @ [d ! i] else filter ?m (take i d))
                = filter ?m (take (Suc i) d)"
      using lt by (simp add: take_Suc_conv_app_nth isMatch_specMatch[OF props])
    from Suc lt have "n = length d - Suc i" and "Suc i \<le> length d" by simp_all
    from Suc.hyps(1)[OF this] obtain k where k:
      "Suc i \<le> k" "k \<le> length d"
      "defaultSearchLoop d props limit (toLowerCase text) (Suc i) (filter ?m (take (Suc i) d))
         = (filter ?m (take k d), k)"
      "k < length d \<longrightarrow> limitReached limit (filter ?m (take k d))"
      "\<forall>j. Suc i \<le> j \<and> j < k \<longrightarrow> \<not> limitReached limit (filter ?m (take j d))"
      by blast
    have "defaultSearchLoop d props limit (toLowerCase text) i (filter ?m (take i d))
            = (filter ?m (take k d), k)"
      using lt False step k(3)
      by (subst defaultSearchLoop.simps) (simp add: Let_def)
    moreover have "\<forall>j. i \<le> j \<and> j < k \<longrightarrow> \<not> limitReached limit (filter ?m (take j d))"
    proof (intro allI impI)
      fix j assume j: "i \<le> j \<and> j < k"
      show "\<not> limitReached limit (filter ?m (take j d))"
      proof (cases "j = i")
        case True with False show ?thesis by simp
      next
        case False
        with j have "Suc i \<le> j \<and> j < k" by simp
        with k(5) show ?thesis by blast
      qed
    qed
    ultimately show ?thesis
      using k(1,2,4) by (intro exI[of _ k]) simp
  qed
qed

lemma length_filter_take_Suc:
  "length (filter P (take (Suc j) d)) \<le> Suc (length (filter P (take j d)))"
proof (cases "j < length d")
  case True
  then show ?thesis by (simp add: take_Suc_conv_app_nth)
next
  case False
  then show ?thesis by simp
qed

lemma exit_is_take:
  assumes k: "k \<le> length d"
    and reached: "k < length d \<longrightarrow> limitReached (Some l) (filter P (take k d))"
    and before: "\<forall>j<k. \<not> limitReached (Some l) (filter P (take j d))"
    and l: "l \<noteq> 0"
  shows "filter P (take k d) = take (nat l) (filter P d)"
proof (cases k)
  case 0
  show ?thesis
  proof (cases "d = []")
    case True
    with 0 show ?thesis by simp
  next
    case False
    with 0 reached l have "l < 0" by (simp add: limitReached_def)
    with 0 show ?thesis by simp
  qed
next
  case (Suc j)
  with before have "\<not> limitReached (Some l) (filter P (take j d))" by simp
  with l have "int (length (filter P (take j d))) < l" by (simp add: limitReached_def)
  with length_filter_take_Suc[of P j d] Suc
  have le: "length (filter P (take k d)) \<le> nat l" by simp
  have split: "filter P d = filter P (take k d) @ filter P (drop k d)"
    by (metis append_take_drop_id filter_append)
  show ?thesis
  proof (cases "k < length d")
    case True
    with reached l have "l \<le> int (length (filter P (take k d)))" by (simp add: limitReached_def)
    with le have "length (filter P (take k d)) = nat l" by simp
    then show ?thesis by (subst split) simp
  next
    case False
    with k have "k = length d" by simp
    with le show ?thesis by simp
  qed
qed

lemma exit_no_limit:
  assumes k: "k \<le> length d"
    and reached: "k < length d \<longrightarrow> limitReached limit (filter P (take k d))"
    and l: "limit = None \<or> limit = Some 0"
  shows "filter P (take k d) = filter P d"
proof -
  from l have "\<not> limitReached limit (filter P (take k d))" by (auto simp: limitReached_def)
  with reached k have "k = length d" by auto
  then show ?thesis by simp
qed

lemma defaultSearchLoop_example:
  "defaultSearchLoop exampleData [''name''] (Some 2) (toLowerCase ''an'') 0 []
     = ([ann, anna], 2)"
  by code_simp

text \<open>
  Claim C1. With a dataset supplied and no empty name among the configured field names,
  the default search returns, in dataset order, the records for which the text of some
  configured field, in lower case, contains the lower-case query. The field is read as
  \<open>result[property]\<close> reads it, from the record itself or else through its prototype
  chain; a missing or falsy value counts as the empty string and any other value with
  the text of its \<open>toString()\<close>. A limit other than 0 cuts the result to its first
  \<open>limit\<close> records (to none when negative), and the loop leaves at the first index at
  which that many results are gathered, reading no record from there on. With no limit
  or the limit 0 every matching record is returned. The second half of the statement
  gives the exit index \<open>k\<close>: only the first \<open>k\<close> records were read, the limit is reached
  there unless the dataset is exhausted, and it was not reached at any earlier index.
\<close>

theorem defaultSearchFunction_results:
  assumes d: "data this = Some d" and props: "[] \<notin> set (propertiesToSearch this)"
  shows "defaultSearchFunction this text =
           Inr (case searchResultsLimit this of
                  None \<Rightarrow> filter (specMatch (propertiesToSearch this) text) d
                | Some l \<Rightarrow>
                    if l = 0 then filter (specMatch (propertiesToSearch this) text) d
                    else take (nat l) (filter (specMatch (propertiesToSearch this) text) d))
         \<and> (\<exists>k \<le> length d.
               defaultSearchLoop d (propertiesToSearch this) (searchResultsLimit this)
                   (toLowerCase text) 0 []
                 = (filter (specMatch (propertiesToSearch this) text) (take k d), k)
             \<and> (k < length d \<longrightarrow>
                  limitReached (searchResultsLimit this)
                    (filter (specMatch (propertiesToSearch this) text) (take k d)))
             \<and> (\<forall>j<k. \<not> limitReached (searchResultsLimit this)
                         (filter (specMatch (propertiesToSearch this) text) (take j d))))"
proof -
  let ?m = "specMatch (propertiesToSearch this) text"
  let ?limit = "searchResultsLimit this"
  from defaultSearchLoop_exit[OF props, of 0 d "searchResultsLimit this" "text"]
  obtain k where k: "k \<le> length d"
      "defaultSearchLoop d (propertiesToSearch this) ?limit (toLowerCase text) 0 []
         = (filter ?m (take k d), k)"
      "k < length d \<longrightarrow> limitReached ?limit (filter ?m (take k d))"
      "\<forall>j<k. \<not> limitReached ?limit (filter ?m (take j d))"
    by auto
  have res: "filter ?m (take k d) =
      (case ?limit of None \<Rightarrow> filter ?m d
       | Some l \<Rightarrow> if l = 0 then filter ?m d else take (nat l) (filter ?m d))"
  proof (cases ?limit)
    case None
    with exit_no_limit[OF k(1) k(3)] show ?thesis by simp
  next
    case (Some l)
    show ?thesis
    proof (cases "l = 0")
      case True
      with Some exit_no_limit[OF k(1) k(3)] show ?thesis by simp
    next
      case False
      with Some exit_is_take[OF k(1) _ _ False, of ?m] k(3,4) show ?thesis by simp
    qed
  qed
  have "defaultSearchFunction this text = Inr (filter ?m (take k d))"
    using d k(2) by (simp add: defaultSearchFunction_def)
  with res k show ?thesis by auto
qed

theorem defaultSearchFunction_results_witness:
  "data exampleComponent = Some exampleData
   \<and> [] \<notin> set (propertiesToSearch exampleComponent)
   \<and> defaultSearchFunction exampleComponent ''an''
       = Inr (take 2 (filter (specMatch [''name''] ''an'') exampleData))
   \<and> defaultSearchFunction exampleComponent ''an''
       = Inr [ann, anna]
   \<and> defaultSearchLoop exampleData [''name''] (Some 2) (toLowerCase ''an'') 0 []
       = ([ann, anna], 2)"
proof -
  have h1: "data exampleComponent = Some exampleData"
    by (simp add: exampleComponent_def)
  have h2: "[] \<notin> set (propertiesToSearch exampleComponent)"
    by (simp add: exampleComponent_def)
  have "defaultSearchFunction exampleComponent ''an''
          = Inr (take 2 (filter (specMatch [''name''] ''an'') exampleData))"
    using defaultSearchFunction_results[OF h1 h2, of "''an''"]
    by (simp add: exampleComponent_def)
  moreover have "defaultSearchFunction exampleComponent ''an''
       = Inr [ann, anna]"
    using defaultSearchLoop_example
    by (simp add: defaultSearchFunction_def exampleComponent_def)
  ultimately show ?thesis
    using h1 h2 defaultSearchLoop_example by simp
qed

theorem defaultSearchFunction_limit_zero_counterexample:
  "defaultSearchFunction (exampleComponent\<lparr>searchResultsLimit := Some 0\<rparr>) ''an''
     \<noteq> Inr (specDefaultSearch exampleData [''name''] 0 ''an'')"
proof -
  have "defaultSearchLoop exampleData [''name''] (Some 0) (toLowerCase ''an'') 0 []
     = ([ann, anna], 3)"
    by code_simp
  then show ?thesis
    by (simp add: defaultSearchFunction_def exampleComponent_def specDefaultSearch_def)
qed

text \<open>
  A field name that only the prototype chain supplies is searched like any other: every
  object literal inherits \<open>constructor\<close>, whose text contains \<open>object\<close>.
\<close>

lemma defaultSearchFunction_inherited_example:
  "defaultSearchFunction
     (exampleComponent\<lparr>propertiesToSearch := [''constructor''], searchResultsLimit := None\<rparr>)
     ''object''
   = Inr exampleData"
proof -
  have "defaultSearchLoop exampleData [''constructor''] None (toLowerCase ''object'') 0 []
          = (exampleData, 3)"
    by code_simp
  then show ?thesis
    by (simp add: defaultSearchFunction_def exampleComponent_def)
qed

text \<open>
  The empty field name: \<open>find\<close> returns the name that matched, and the empty name is
  falsy, so a match found under it is dropped, and with it any match under a later name.
\<close>

lemma isMatch_empty_name:
  "isMatch ([] # props) searchTextLower result =
     (\<not> propertyMatches searchTextLower result [] \<and> isMatch props searchTextLower result)"
  by (simp add: isMatch_def)

lemma defaultSearchFunction_empty_name_example:
  "defaultSearchFunction
     (exampleComponent\<lparr>data := Some [objectLiteral [([], JStr ''Ann''), (''name'', JStr ''Ann'')]],
                        propertiesToSearch := [[], ''name'']\<rparr>)
     ''an''
   = Inr []"
proof -
  have "defaultSearchLoop [objectLiteral [([], JStr ''Ann''), (''name'', JStr ''Ann'')]]
          [[], ''name''] (Some 2) (toLowerCase ''an'') 0 [] = ([], 1)"
    by code_simp
  then show ?thesis
    by (simp add: defaultSearchFunction_def exampleComponent_def)
qed

section \<open>Properties of the autocomplete handlers\<close>

lemma closeDropdown_eq:
  "closeDropdown this =
     this\<lparr>searchResults := Some [],
          dropdownMessageStream := dropdownMessageStream this @ [Close],
          markForCheck := markForCheck this + 1\<rparr>"
  by (simp add: closeDropdown_def sendDropdownMessage_def Let_def)

text \<open>
  Claim C7. For a text that is empty or consists only of white space, whatever the state
  before, \<open>searchTextChanged\<close> sets the committed search text to the empty string,
  clears the results to the empty list, sends Close to the dropdown (and marks the view
  for checking); it starts no search, so the log of search invocations is unchanged and
  no promise is awaited.
\<close>

theorem searchTextChanged_blank:
  assumes "text = [] \<or> (\<forall>c \<in> set text. isWhiteSpace c)"
  shows "searchTextChanged text this =
           Returned None
             (this\<lparr>searchText := JStr [], searchResults := Some [],
                   dropdownMessageStream := dropdownMessageStream this @ [Close],
                   markForCheck := markForCheck this + 1\<rparr>)
         \<and> searchInvocations
               (this\<lparr>searchText := JStr [], searchResults := Some [],
                     dropdownMessageStream := dropdownMessageStream this @ [Close],
                     markForCheck := markForCheck this + 1\<rparr>) = searchInvocations this"
  using assms
  by (auto simp: searchTextChanged_def matchesWhiteSpaceOnly_def closeDropdown_eq list_all_iff)

lemma isWhiteSpace_space: "isWhiteSpace CHR '' ''"
  by code_simp

lemma not_isWhiteSpace_a: "\<not> isWhiteSpace CHR ''a''"
  by code_simp

theorem searchTextChanged_blank_witness:
  "(''  '' = [] \<or> (\<forall>c \<in> set ''  ''. isWhiteSpace c))
   \<and> searchTextChanged ''  '' resultsComponent =
       Returned None
         (resultsComponent\<lparr>searchText := JStr [], searchResults := Some [],
                            dropdownMessageStream := [Open, Close], markForCheck := 1\<rparr>)"
proof -
  have h: "''  '' = [] \<or> (\<forall>c \<in> set ''  ''. isWhiteSpace c)"
    by (simp add: isWhiteSpace_space)
  show ?thesis
    using h searchTextChanged_blank[OF h, of resultsComponent]
    by (simp add: resultsComponent_def exampleComponent_def)
qed

text \<open>
  Claim C6. For a text that is neither empty nor only white space and is shorter than
  \<open>searchTextMinimumCharacters\<close>, \<open>searchTextChanged\<close> returns with the component
  exactly as it was: no search invoked, no dropdown message sent, search text and
  results unchanged, no promise awaited.
\<close>

theorem searchTextChanged_too_short:
  assumes "text \<noteq> []" and "\<not> (\<forall>c \<in> set text. isWhiteSpace c)"
    and "int (length text) < searchTextMinimumCharacters this"
  shows "searchTextChanged text this = Returned None this"
  using assms
  by (auto simp: searchTextChanged_def matchesWhiteSpaceOnly_def list_all_iff)

theorem searchTextChanged_too_short_witness:
  "''ab'' \<noteq> [] \<and> \<not> (\<forall>c \<in> set ''ab''. isWhiteSpace c)
   \<and> int (length ''ab'') < searchTextMinimumCharacters (exampleComponent\<lparr>searchTextMinimumCharacters := 3\<rparr>)
   \<and> searchTextChanged ''ab'' (exampleComponent\<lparr>searchTextMinimumCharacters := 3\<rparr>)
       = Returned None (exampleComponent\<lparr>searchTextMinimumCharacters := 3\<rparr>)"
proof -
  have h1: "''ab'' \<noteq> []" by simp
  have h2: "\<not> (\<forall>c \<in> set ''ab''. isWhiteSpace c)"
    by (simp add: not_isWhiteSpace_a)
  have h3: "int (length ''ab'')
              < searchTextMinimumCharacters (exampleComponent\<lparr>searchTextMinimumCharacters := 3\<rparr>)"
    by simp
  show ?thesis
    using h1 h2 h3 searchTextChanged_too_short[OF h1 h2 h3] by simp
qed

lemma searchTextChanged_started:
  assumes "searchTextChanged text this = Returned (Some p) this1"
  shows "dropdownMessageStream this1 = dropdownMessageStream this"
  using assms
  by (auto simp: searchTextChanged_def performSearch_def Let_def
           split: if_splits search_function.splits sum.splits search_response.splits)

text \<open>
  Claim C9. When a search that \<open>searchTextChanged\<close> started completes with the empty
  list (its promise being one that can be fulfilled with it), the continuation stores
  the empty list as the results and still sends Open:
  after it, the messages are those from before the search followed by Open, although
  there are no results to show.
\<close>

theorem thenCallback_empty_opens:
  assumes "searchTextChanged text this = Returned (Some p) this1" and "fulfilsWith p []"
  shows "searchResults (thenCallback [] this1) = Some []
         \<and> \<not> hasSearchResults (thenCallback [] this1)
         \<and> dropdownMessageStream (thenCallback [] this1) = dropdownMessageStream this @ [Open]"
  using searchTextChanged_started[OF assms(1)]
  by (simp add: thenCallback_def openDropdown_def sendDropdownMessage_def Let_def
        hasSearchResults_def)

lemma searchTextChanged_no_match_example:
  "searchTextChanged ''zz'' exampleComponent =
     Returned (Some (PromiseResolve []))
       (exampleComponent\<lparr>searchText := JStr ''zz'', searchInvocations := [''zz'']\<rparr>)"
proof -
  have t: "trim ''zz'' = ''zz''" by code_simp
  have w: "\<not> matchesWhiteSpaceOnly ''zz''" by code_simp
  have l: "defaultSearchLoop exampleData [''name''] (Some 2) (toLowerCase ''zz'') 0 [] = ([], 3)"
    by code_simp
  show ?thesis
    using t w l
    by (simp add: searchTextChanged_def performSearch_def defaultSearchFunction_def
          exampleComponent_def Let_def)
qed

theorem thenCallback_empty_opens_witness:
  "fulfilsWith (PromiseResolve []) []
   \<and> searchTextChanged ''zz'' exampleComponent =
     Returned (Some (PromiseResolve []))
       (exampleComponent\<lparr>searchText := JStr ''zz'', searchInvocations := [''zz'']\<rparr>)
   \<and> searchResults (thenCallback []
        (exampleComponent\<lparr>searchText := JStr ''zz'', searchInvocations := [''zz'']\<rparr>)) = Some []
   \<and> dropdownMessageStream (thenCallback []
        (exampleComponent\<lparr>searchText := JStr ''zz'', searchInvocations := [''zz'']\<rparr>)) = [Open]"
proof -
  have f: "fulfilsWith (PromiseResolve []) []" by simp
  show ?thesis
    using thenCallback_empty_opens[OF searchTextChanged_no_match_example f]
      searchTextChanged_no_match_example
    by (simp add: exampleComponent_def)
qed

text \<open>
  Claim C10. Without the input directive \<open>ngAfterContentInit\<close> throws, leaving the
  component as it was (in particular with no subscription added); with it, it returns
  normally, having copied the descriptor property and added one subscription.
\<close>

theorem ngAfterContentInit_requires_input:
  "(inputDirective this = None \<longrightarrow> ngAfterContentInit this = Thrown ConfigError this)
   \<and> (\<forall>d. inputDirective this = Some d \<longrightarrow>
          ngAfterContentInit this =
            Returned ()
              (this\<lparr>inputDirective := Some (d\<lparr>inputDescriptorProperty := descriptorProperty this\<rparr>),
                    subscriptions := subscriptions this + 1\<rparr>))"
  by (simp add: ngAfterContentInit_def)

theorem ngAfterContentInit_requires_input_witness:
  "ngAfterContentInit (exampleComponent\<lparr>inputDirective := None\<rparr>)
     = Thrown ConfigError (exampleComponent\<lparr>inputDirective := None\<rparr>)
   \<and> subscriptions (exampleComponent\<lparr>inputDirective := None\<rparr>) = 0
   \<and> ngAfterContentInit exampleComponent = Returned () (exampleComponent\<lparr>subscriptions := 1\<rparr>)"
  using ngAfterContentInit_requires_input[of "exampleComponent\<lparr>inputDirective := None\<rparr>"]
    ngAfterContentInit_requires_input[of exampleComponent]
  by (simp add: exampleComponent_def)


lemma selectActiveSearchResult_none:
  "\<not> hasSearchResults this \<Longrightarrow> selectActiveSearchResult this = Returned () this"
  by (simp add: selectActiveSearchResult_def)

lemma selectActiveSearchResult_some:
  assumes "searchResults this = Some rs" and "rs \<noteq> []"
    and "0 \<le> searchResultsIndex this" and "searchResultsIndex this < int (length rs)"
    and "inputDirective this = Some d"
  shows "selectActiveSearchResult this =
           Returned ()
             (this\<lparr>searchText := getProp (rs ! nat (searchResultsIndex this)) (descriptorProperty this),
                   inputDirective := Some (d\<lparr>inputValue := Some (rs ! nat (searchResultsIndex this))\<rparr>),
                   selectionChange := selectionChange this @ [rs ! nat (searchResultsIndex this)],
                   searchResults := Some [],
                   dropdownMessageStream := dropdownMessageStream this @ [Close],
                   markForCheck := markForCheck this + 1\<rparr>)"
  using assms
  by (simp add: selectActiveSearchResult_def hasSearchResults_def Let_def closeDropdown_eq
        notifySelectionChange_def)

lemma handleKeyDown_select:
  assumes "toLowerCase key = ''tab'' \<or> toLowerCase key = ''enter''"
  shows "handleKeyDown key this =
           (if hasSearchResults this then
              (case selectActiveSearchResult this of
                 Returned u this' \<Rightarrow> Returned (True, False) this'
               | Thrown e this' \<Rightarrow> Thrown e this')
            else Returned (False, False) this)"
  using assms by (auto simp: handleKeyDown_def Let_def)

text \<open>
  Claim C3. \<open>selectActiveSearchResult\<close> does nothing when there are no results, and then
  a tab or enter key press changes nothing either. When there are results, the active
  index lies within them and the input directive is present, it sets the search text
  to the descriptor property of the record at the active index, stores the record in
  the input directive, emits it on \<open>selectionChange\<close>, empties the results and sends
  Close; a tab or enter key press does the same and prevents the default action, and a
  click on a result does it after setting the active index.
\<close>

theorem selectActiveSearchResult_selects:
  "(\<not> hasSearchResults this \<longrightarrow>
      selectActiveSearchResult this = Returned () this
      \<and> (toLowerCase key = ''tab'' \<or> toLowerCase key = ''enter'' \<longrightarrow>
           handleKeyDown key this = Returned (False, False) this))
   \<and> (\<forall>rs d. searchResults this = Some rs \<and> rs \<noteq> []
          \<and> 0 \<le> searchResultsIndex this \<and> searchResultsIndex this < int (length rs)
          \<and> inputDirective this = Some d \<longrightarrow>
        (let result = rs ! nat (searchResultsIndex this);
             selected =
               this\<lparr>searchText := getProp result (descriptorProperty this),
                    inputDirective := Some (d\<lparr>inputValue := Some result\<rparr>),
                    selectionChange := selectionChange this @ [result],
                    searchResults := Some [],
                    dropdownMessageStream := dropdownMessageStream this @ [Close],
                    markForCheck := markForCheck this + 1\<rparr>
         in selectActiveSearchResult this = Returned () selected
            \<and> (toLowerCase key = ''tab'' \<or> toLowerCase key = ''enter'' \<longrightarrow>
                 handleKeyDown key this = Returned (True, False) selected)))
   \<and> onSearchResultClick index this
        = selectActiveSearchResult (this\<lparr>searchResultsIndex := index\<rparr>)"
proof (intro conjI impI allI)
  assume "\<not> hasSearchResults this"
  then show "selectActiveSearchResult this = Returned () this"
    by (rule selectActiveSearchResult_none)
next
  assume "\<not> hasSearchResults this" and "toLowerCase key = ''tab'' \<or> toLowerCase key = ''enter''"
  then show "handleKeyDown key this = Returned (False, False) this"
    by (simp add: handleKeyDown_select)
next
  fix rs d
  assume a: "searchResults this = Some rs \<and> rs \<noteq> []
          \<and> 0 \<le> searchResultsIndex this \<and> searchResultsIndex this < int (length rs)
          \<and> inputDirective this = Some d"
  then have sel: "selectActiveSearchResult this =
           Returned ()
             (this\<lparr>searchText := getProp (rs ! nat (searchResultsIndex this)) (descriptorProperty this),
                   inputDirective := Some (d\<lparr>inputValue := Some (rs ! nat (searchResultsIndex this))\<rparr>),
                   selectionChange := selectionChange this @ [rs ! nat (searchResultsIndex this)],
                   searchResults := Some [],
                   dropdownMessageStream := dropdownMessageStream this @ [Close],
                   markForCheck := markForCheck this + 1\<rparr>)"
    by (intro selectActiveSearchResult_some) simp_all
  from a have has: "hasSearchResults this" by (simp add: hasSearchResults_def)
  show "let result = rs ! nat (searchResultsIndex this);
             selected =
               this\<lparr>searchText := getProp result (descriptorProperty this),
                    inputDirective := Some (d\<lparr>inputValue := Some result\<rparr>),
                    selectionChange := selectionChange this @ [result],
                    searchResults := Some [],
                    dropdownMessageStream := dropdownMessageStream this @ [Close],
                    markForCheck := markForCheck this + 1\<rparr>
         in selectActiveSearchResult this = Returned () selected
            \<and> (toLowerCase key = ''tab'' \<or> toLowerCase key = ''enter'' \<longrightarrow>
                 handleKeyDown key this = Returned (True, False) selected)"
    unfolding Let_def
  proof (intro conjI impI)
    show "selectActiveSearchResult this =
           Returned ()
             (this\<lparr>searchText := getProp (rs ! nat (searchResultsIndex this)) (descriptorProperty this),
                   inputDirective := Some (d\<lparr>inputValue := Some (rs ! nat (searchResultsIndex this))\<rparr>),
                   selectionChange := selectionChange this @ [rs ! nat (searchResultsIndex this)],
                   searchResults := Some [],
                   dropdownMessageStream := dropdownMessageStream this @ [Close],
                   markForCheck := markForCheck this + 1\<rparr>)"
      by (rule sel)
  next
    assume "toLowerCase key = ''tab'' \<or> toLowerCase key = ''enter''"
    then show "handleKeyDown key this =
           Returned (True, False)
             (this\<lparr>searchText := getProp (rs ! nat (searchResultsIndex this)) (descriptorProperty this),
                   inputDirective := Some (d\<lparr>inputValue := Some (rs ! nat (searchResultsIndex this))\<rparr>),
                   selectionChange := selectionChange this @ [rs ! nat (searchResultsIndex this)],
                   searchResults := Some [],
                   dropdownMessageStream := dropdownMessageStream this @ [Close],
                   markForCheck := markForCheck this + 1\<rparr>)"
      using has sel by (simp add: handleKeyDown_select)
  qed
next
  show "onSearchResultClick index this
        = selectActiveSearchResult (this\<lparr>searchResultsIndex := index\<rparr>)"
    by (simp add: onSearchResultClick_def)
qed

lemma toLowerCase_Enter: "toLowerCase ''Enter'' = ''enter''"
  by code_simp

theorem selectActiveSearchResult_selects_witness:
  "\<not> hasSearchResults exampleComponent
   \<and> handleKeyDown ''Enter'' exampleComponent = Returned (False, False) exampleComponent
   \<and> hasSearchResults resultsComponent
   \<and> handleKeyDown ''Enter'' resultsComponent =
       Returned (True, False)
         (resultsComponent\<lparr>searchText := JStr ''Anna'',
            inputDirective :=
              Some \<lparr>inputValue = Some anna, inputDescriptorProperty = ''name''\<rparr>,
            selectionChange := [anna],
            searchResults := Some [],
            dropdownMessageStream := [Open, Close],
            markForCheck := 1\<rparr>)"
proof -
  have n: "\<not> hasSearchResults exampleComponent"
    by (simp add: hasSearchResults_def exampleComponent_def)
  have h: "hasSearchResults resultsComponent"
    by (simp add: hasSearchResults_def resultsComponent_def)
  note t1 = selectActiveSearchResult_selects[of exampleComponent "''Enter''" 0]
  note t2 = selectActiveSearchResult_selects[of resultsComponent "''Enter''" 0]
  from t1 n have a: "handleKeyDown ''Enter'' exampleComponent = Returned (False, False) exampleComponent"
    by (simp add: toLowerCase_Enter)
  from t2 have b: "handleKeyDown ''Enter'' resultsComponent =
       Returned (True, False)
         (resultsComponent\<lparr>searchText := JStr ''Anna'',
            inputDirective :=
              Some \<lparr>inputValue = Some anna, inputDescriptorProperty = ''name''\<rparr>,
            selectionChange := [anna],
            searchResults := Some [],
            dropdownMessageStream := [Open, Close],
            markForCheck := 1\<rparr>)"
    by (simp add: toLowerCase_Enter resultsComponent_def exampleComponent_def getProp_def
          anna_def objectLiteral_def Let_def)
  from n h a b show ?thesis by simp
qed

theorem selectActiveSearchResult_stale_index_counterexample:
  "hasSearchResults staleIndexComponent
   \<and> selectActiveSearchResult staleIndexComponent = Thrown TypeError staleIndexComponent
   \<and> handleKeyDown ''Enter'' staleIndexComponent = Thrown TypeError staleIndexComponent"
proof -
  have s: "searchResults staleIndexComponent = Some [ann]
           \<and> searchResultsIndex staleIndexComponent = 1"
    by (simp add: staleIndexComponent_def thenCallback_def onMenuChange_def openDropdown_def
          sendDropdownMessage_def Let_def)
  then have h: "hasSearchResults staleIndexComponent"
    by (simp add: hasSearchResults_def)
  from s h have t: "selectActiveSearchResult staleIndexComponent
                     = Thrown TypeError staleIndexComponent"
    by (simp add: selectActiveSearchResult_def)
  from h t show ?thesis
    by (simp add: handleKeyDown_select toLowerCase_Enter)
qed

text \<open>
  Without the input directive the selection sets the search text and then throws at the
  assignment of \<open>value\<close>. A descriptor property that only the prototype chain
  supplies puts the inherited value into the search text.
\<close>

lemma selectActiveSearchResult_no_directive:
  assumes "searchResults this = Some rs" and "rs \<noteq> []"
    and "0 \<le> searchResultsIndex this" and "searchResultsIndex this < int (length rs)"
    and "inputDirective this = None"
  shows "selectActiveSearchResult this =
           Thrown TypeError
             (this\<lparr>searchText :=
                     getProp (rs ! nat (searchResultsIndex this)) (descriptorProperty this)\<rparr>)"
  using assms
  by (simp add: selectActiveSearchResult_def hasSearchResults_def Let_def)

lemma getProp_inherited_example:
  "getProp anna ''constructor'' = JObject ''function Object() { [native code] }''
   \<and> getProp anna ''name'' = JStr ''Anna''
   \<and> getProp anna ''age'' = JUndefined"
  by (simp add: getProp_def anna_def objectLiteral_def objectPrototype_def)

section \<open>Properties of the infinite-scroll component\<close>

lemma getScrollableParent_finds:
  assumes "ancestors = pre @ p # post" and "isScrollable p"
    and "\<forall>e \<in> set (element # pre). \<not> endsWalk body e"
    and "\<forall>e \<in> set pre. \<not> isScrollable e"
  shows "getScrollableParent body flag element ancestors = Inr (ParentElement p, flag)"
  using assms
  by (induction pre arbitrary: element ancestors) auto

lemma getScrollableParent_window:
  assumes "element # ancestors = pre @ b # post" and "endsWalk body b"
    and "\<forall>e \<in> set pre. \<not> endsWalk body e"
    and "\<forall>e \<in> set (tl (pre @ [b])). \<not> isScrollable e"
  shows "getScrollableParent body flag element ancestors = Inr (Window, True)"
  using assms
proof (induction pre arbitrary: element ancestors)
  case Nil
  then show ?case by (cases ancestors) auto
next
  case (Cons q pre)
  then have q: "element = q" and anc: "ancestors = pre @ b # post" by simp_all
  then obtain r rest where r: "ancestors = r # rest" by (cases pre) auto
  with anc have rin: "r \<in> set (pre @ [b])" by (cases pre) auto
  with Cons.prems(4) have nr: "\<not> isScrollable r" by auto
  have "getScrollableParent body flag r rest = Inr (Window, True)"
  proof (rule Cons.IH)
    show "r # rest = pre @ b # post" using anc r by simp
    show "endsWalk body b" by (rule Cons.prems(2))
    show "\<forall>e \<in> set pre. \<not> endsWalk body e" using Cons.prems(3) by simp
    show "\<forall>e \<in> set (tl (pre @ [b])). \<not> isScrollable e"
    proof
      fix e assume "e \<in> set (tl (pre @ [b]))"
      then have "e \<in> set (pre @ [b])" by (cases pre) auto
      with Cons.prems(4) show "\<not> isScrollable e" by auto
    qed
  qed
  with q r nr Cons.prems(3) show ?case by simp
qed

lemma getScrollableParent_detached:
  assumes "\<forall>e \<in> set (element # ancestors). \<not> endsWalk body e"
    and "\<forall>e \<in> set ancestors. \<not> isScrollable e"
  shows "getScrollableParent body flag element ancestors = Inl TypeError"
  using assms
  by (induction ancestors arbitrary: element) auto

lemma getScrollableParent_flag:
  "getScrollableParent body flag element ancestors = Inr (parent, isWindow) \<Longrightarrow>
     (parent = Window \<and> isWindow) \<or> (parent \<noteq> Window \<and> isWindow = flag)"
  by (induction ancestors arbitrary: element) (auto split: if_splits)

text \<open>
  Claim C5. The walk ends at an element that is the document body or reports a
  \<open>length\<close> of at most 0. If an ancestor with \<open>overflow-y\<close> \<open>auto\<close> or \<open>scroll\<close> is
  met while neither the trigger nor any ancestor below it ends the walk, and no
  ancestor below it is scrollable, that nearest scrollable ancestor is returned and the
  flag is left as it was. If the walk ends at an element before any scrollable ancestor
  was met (the element itself having been examined as a parent, unless it is the
  trigger), the window is returned and the flag set. Started with the flag false, as
  \<open>ngOnInit\<close> does, the flag is true afterwards exactly when the window was returned.
\<close>

theorem getScrollableParent_nearest:
  "(\<forall>pre p post. ancestors = pre @ p # post \<and> isScrollable p
        \<and> (\<forall>e \<in> set (element # pre). \<not> endsWalk body e)
        \<and> (\<forall>e \<in> set pre. \<not> isScrollable e) \<longrightarrow>
      getScrollableParent body flag element ancestors = Inr (ParentElement p, flag))
   \<and> (\<forall>pre b post. element # ancestors = pre @ b # post \<and> endsWalk body b
        \<and> (\<forall>e \<in> set pre. \<not> endsWalk body e)
        \<and> (\<forall>e \<in> set (tl (pre @ [b])). \<not> isScrollable e) \<longrightarrow>
      getScrollableParent body flag element ancestors = Inr (Window, True))
   \<and> (\<forall>parent isWindow. getScrollableParent body False element ancestors = Inr (parent, isWindow) \<longrightarrow>
        isWindow = (parent = Window))"
  using getScrollableParent_finds[of ancestors _ _ _ element body flag]
    getScrollableParent_window[of element ancestors _ _ _ body flag]
    getScrollableParent_flag[of body False element ancestors]
  by blast

theorem getScrollableParent_nearest_witness:
  "getScrollableParent 4 False triggerEl [plainEl, scrollEl, bodyEl] = Inr (ParentElement scrollEl, False)
   \<and> getScrollableParent 4 False triggerEl [plainEl, bodyEl] = Inr (Window, True)"
proof -
  note t1 = getScrollableParent_nearest[of "[plainEl, scrollEl, bodyEl]" triggerEl 4 False]
  note t2 = getScrollableParent_nearest[of "[plainEl, bodyEl]" triggerEl 4 False]
  have a: "[plainEl, scrollEl, bodyEl] = [plainEl] @ scrollEl # [bodyEl] \<and> isScrollable scrollEl
        \<and> (\<forall>e \<in> set (triggerEl # [plainEl]). \<not> endsWalk 4 e)
        \<and> (\<forall>e \<in> set [plainEl]. \<not> isScrollable e)"
    by (simp add: isScrollable_def endsWalk_def lengthLeZero_def triggerEl_def plainEl_def
          scrollEl_def)
  have b: "triggerEl # [plainEl, bodyEl] = [triggerEl, plainEl] @ bodyEl # [] \<and> endsWalk 4 bodyEl
        \<and> (\<forall>e \<in> set [triggerEl, plainEl]. \<not> endsWalk 4 e)
        \<and> (\<forall>e \<in> set (tl ([triggerEl, plainEl] @ [bodyEl])). \<not> isScrollable e)"
    by (simp add: isScrollable_def endsWalk_def lengthLeZero_def triggerEl_def plainEl_def
          bodyEl_def)
  from t1 a have "getScrollableParent 4 False triggerEl [plainEl, scrollEl, bodyEl]
      = Inr (ParentElement scrollEl, False)" by blast
  moreover from t2 b have "getScrollableParent 4 False triggerEl [plainEl, bodyEl]
      = Inr (Window, True)" by blast
  ultimately show ?thesis by simp
qed

theorem getScrollableParent_empty_form_counterexample:
  "isScrollable scrollEl \<and> \<not> isScrollable emptyFormEl
   \<and> getScrollableParent 4 False triggerEl [emptyFormEl, scrollEl, bodyEl] = Inr (Window, True)"
  by (simp add: isScrollable_def endsWalk_def lengthLeZero_def triggerEl_def emptyFormEl_def
        scrollEl_def bodyEl_def)


lemma ngOnInit_state:
  assumes "ngOnInit body nativeElement ancestors offsetTop0 hasMore0 = Inr this0"
  shows "scrollableParentIsWindow this0 = (scrollableParentEl this0 = Window)
         \<and> \<not> isLoading this0 \<and> onLoadEmitted this0 = 0 \<and> isLoadingCleared this0 = 0
         \<and> elementPosition this0 = offsetTop0 \<and> hasMore this0 = hasMore0"
proof (cases "getScrollableParent body False nativeElement ancestors")
  case (Inl e)
  with assms show ?thesis by (simp add: ngOnInit_def)
next
  case (Inr r)
  obtain parent isWindow where r: "r = (parent, isWindow)" by (cases r)
  with Inr getScrollableParent_flag[of body False nativeElement ancestors parent isWindow]
  have "isWindow = (parent = Window)" by auto
  with Inr r assms show ?thesis by (auto simp: ngOnInit_def)
qed

lemma dispatch_viewport:
  "scrollableParentEl (dispatch e this) = scrollableParentEl this
   \<and> scrollableParentIsWindow (dispatch e this) = scrollableParentIsWindow this"
  by (cases e) (simp_all add: startInfiniteScrollLoad_def onDOMNodeInserted_def)

lemma run_viewport:
  "scrollableParentEl (run events this) = scrollableParentEl this
   \<and> scrollableParentIsWindow (run events this) = scrollableParentIsWindow this"
  unfolding run_def
  by (induction events arbitrary: this) (simp_all add: dispatch_viewport)

lemma dispatch_outstanding:
  assumes "outstanding this = (if isLoading this then 1 else 0)"
  shows "outstanding (dispatch e this) = (if isLoading (dispatch e this) then 1 else 0)"
  using assms
  by (cases e) (auto simp: outstanding_def startInfiniteScrollLoad_def onDOMNodeInserted_def)

lemma run_outstanding:
  assumes "outstanding this = (if isLoading this then 1 else 0)"
  shows "outstanding (run events this) = (if isLoading (run events this) then 1 else 0)"
  using assms unfolding run_def
proof (induction events arbitrary: this)
  case Nil
  then show ?case by simp
next
  case (Cons e events)
  from Cons.prems have "outstanding (dispatch e this) = (if isLoading (dispatch e this) then 1 else 0)"
    by (rule dispatch_outstanding)
  then show ?case using Cons.IH by simp
qed

lemma inView_consistent:
  assumes "scrollableParentIsWindow this = (scrollableParentEl this = Window)"
  shows "infiniteScrollInView l this =
           (case scrollableParentEl this of
              Window \<Rightarrow> scrollY l + innerHeight l > offsetTop l
            | ParentElement e \<Rightarrow> scrollTop l + clientHeight l > offsetTop l)"
  using assms by (auto simp: infiniteScrollInView_def split: viewport.splits)

text \<open>
  Claim C8. In every state the component reaches after \<open>ngOnInit\<close>, the viewport is the
  one \<open>ngOnInit\<close> resolved, and the trigger is in view exactly when the viewport's
  scroll offset plus its visible height exceeds the trigger's \<open>offsetTop\<close>: for the
  window \<open>scrollY + innerHeight\<close>, for an ancestor element \<open>scrollTop + clientHeight\<close>.
\<close>

theorem infiniteScrollInView_meaning:
  assumes "ngOnInit body nativeElement ancestors offsetTop0 hasMore0 = Inr this0"
  shows "scrollableParentEl (run events this0) = scrollableParentEl this0
         \<and> infiniteScrollInView l (run events this0) =
             (case scrollableParentEl this0 of
                Window \<Rightarrow> scrollY l + innerHeight l > offsetTop l
              | ParentElement e \<Rightarrow> scrollTop l + clientHeight l > offsetTop l)"
proof -
  from ngOnInit_state[OF assms]
  have "scrollableParentIsWindow this0 = (scrollableParentEl this0 = Window)" by simp
  then have "scrollableParentIsWindow (run events this0) = (scrollableParentEl (run events this0) = Window)"
    by (simp add: run_viewport)
  from inView_consistent[OF this] show ?thesis by (simp add: run_viewport)
qed

lemma ngOnInit_window_example:
  "ngOnInit 4 triggerEl [plainEl, bodyEl] 100 True = Inr initAt100"
  by (simp add: ngOnInit_def initAt100_def isScrollable_def endsWalk_def lengthLeZero_def
        triggerEl_def plainEl_def bodyEl_def)

lemma ngOnInit_element_example:
  "ngOnInit 4 triggerEl [plainEl, scrollEl, bodyEl] 100 True
     = Inr (initAt100\<lparr>scrollableParentEl := ParentElement scrollEl,
                        scrollableParentIsWindow := False\<rparr>)"
  by (simp add: ngOnInit_def initAt100_def isScrollable_def endsWalk_def lengthLeZero_def
        triggerEl_def plainEl_def scrollEl_def bodyEl_def)

theorem infiniteScrollInView_meaning_witness:
  "ngOnInit 4 triggerEl [plainEl, bodyEl] 100 True = Inr initAt100
   \<and> infiniteScrollInView layout500 (run [ScrollEvent layout500] initAt100)
   \<and> \<not> infiniteScrollInView (layout500\<lparr>innerHeight := 500\<rparr>) (run [ScrollEvent layout500] initAt100)
   \<and> infiniteScrollInView (layout500\<lparr>innerHeight := 0\<rparr>)
        (run [] (initAt100\<lparr>scrollableParentEl := ParentElement scrollEl,
                            scrollableParentIsWindow := False\<rparr>))"
  using infiniteScrollInView_meaning[OF ngOnInit_window_example, of "[ScrollEvent layout500]" layout500]
    infiniteScrollInView_meaning[OF ngOnInit_window_example, of "[ScrollEvent layout500]"
      "layout500\<lparr>innerHeight := 500\<rparr>"]
    infiniteScrollInView_meaning[OF ngOnInit_element_example, of "[]" "layout500\<lparr>innerHeight := 0\<rparr>"]
    ngOnInit_window_example
  by (simp add: initAt100_def layout500_def)

text \<open>
  Claim C2. In every state reached from \<open>ngOnInit\<close> by scroll events, insertion events
  and changes of \<open>hasMore\<close>, the load signals emitted exceed the resets of the loading
  flag by one while loading and by none otherwise, so at most one load is outstanding.
  With \<open>hasMore\<close>, not loading and the trigger in view, a scroll event emits exactly one
  load signal and sets the loading flag. While loading no scroll event emits a load
  signal, and a scroll event at which the trigger's offset equals the recorded
  \<open>elementPosition\<close> leaves the state as it is; so does the second of two scroll
  events at such a layout.
\<close>

theorem startInfiniteScrollLoad_single_load:
  assumes "ngOnInit body nativeElement ancestors offsetTop0 hasMore0 = Inr this0"
    and "this = run events this0"
  shows "outstanding this = (if isLoading this then 1 else 0)
         \<and> (hasMore this \<and> \<not> isLoading this \<and> infiniteScrollInView l this \<longrightarrow>
              startInfiniteScrollLoad l this =
                this\<lparr>isLoading := True, onLoadEmitted := onLoadEmitted this + 1\<rparr>)
         \<and> (isLoading this \<longrightarrow>
              onLoadEmitted (startInfiniteScrollLoad l this) = onLoadEmitted this)
         \<and> (isLoading this \<and> offsetTop l = elementPosition this \<longrightarrow>
              startInfiniteScrollLoad l this = this)
         \<and> (hasMore this \<and> \<not> isLoading this \<and> infiniteScrollInView l this
              \<and> offsetTop l = elementPosition this \<longrightarrow>
              startInfiniteScrollLoad l (startInfiniteScrollLoad l this)
                = startInfiniteScrollLoad l this)"
proof -
  from ngOnInit_state[OF assms(1)]
  have "outstanding this0 = (if isLoading this0 then 1 else 0)"
    by (simp add: outstanding_def)
  then have "outstanding this = (if isLoading this then 1 else 0)"
    unfolding assms(2) by (rule run_outstanding)
  then show ?thesis
    by (auto simp: startInfiniteScrollLoad_def)
qed

theorem startInfiniteScrollLoad_single_load_witness:
  "ngOnInit 4 triggerEl [plainEl, bodyEl] 100 True = Inr initAt100
   \<and> run [ScrollEvent (layout500\<lparr>offsetTop := 100\<rparr>)] initAt100 = loadingAt100
   \<and> outstanding loadingAt100 = 1
   \<and> startInfiniteScrollLoad (layout500\<lparr>offsetTop := 100\<rparr>) initAt100 = loadingAt100
   \<and> startInfiniteScrollLoad (layout500\<lparr>offsetTop := 100\<rparr>) loadingAt100 = loadingAt100"
proof -
  have r: "loadingAt100 = run [ScrollEvent (layout500\<lparr>offsetTop := 100\<rparr>)] initAt100"
    by (simp add: run_def startInfiniteScrollLoad_def infiniteScrollInView_def loadingAt100_def
          initAt100_def layout500_def)
  have i: "initAt100 = run [] initAt100" by (simp add: run_def)
  note t1 = startInfiniteScrollLoad_single_load[OF ngOnInit_window_example r,
              of "layout500\<lparr>offsetTop := 100\<rparr>"]
  note t2 = startInfiniteScrollLoad_single_load[OF ngOnInit_window_example i,
              of "layout500\<lparr>offsetTop := 100\<rparr>"]
  have l: "isLoading loadingAt100 \<and> offsetTop (layout500\<lparr>offsetTop := 100\<rparr>) = elementPosition loadingAt100"
    by (simp add: loadingAt100_def initAt100_def)
  have v: "hasMore initAt100 \<and> \<not> isLoading initAt100
           \<and> infiniteScrollInView (layout500\<lparr>offsetTop := 100\<rparr>) initAt100"
    by (simp add: initAt100_def infiniteScrollInView_def layout500_def)
  from t1 l have a: "outstanding loadingAt100 = 1"
    and b: "startInfiniteScrollLoad (layout500\<lparr>offsetTop := 100\<rparr>) loadingAt100 = loadingAt100"
    by simp_all
  have e: "onLoadEmitted initAt100 = 0" by (simp add: initAt100_def)
  from t2 v have c: "startInfiniteScrollLoad (layout500\<lparr>offsetTop := 100\<rparr>) initAt100 = loadingAt100"
    by (simp add: loadingAt100_def e)
  from a b c r ngOnInit_window_example show ?thesis by simp
qed

theorem startInfiniteScrollLoad_stale_position_counterexample:
  "ngOnInit 4 triggerEl [plainEl, bodyEl] 100 True = Inr initAt100
   \<and> isLoading (startInfiniteScrollLoad layout500 initAt100)
   \<and> startInfiniteScrollLoad layout500 (startInfiniteScrollLoad layout500 initAt100)
       \<noteq> startInfiniteScrollLoad layout500 initAt100
   \<and> onLoadEmitted (run [ScrollEvent layout500, ScrollEvent layout500, ScrollEvent layout500] initAt100) = 2"
  using ngOnInit_window_example
  by (simp add: run_def startInfiniteScrollLoad_def infiniteScrollInView_def initAt100_def
        layout500_def)

text \<open>
  Claim C4. While loading, with the trigger's offset different from the recorded
  \<open>elementPosition\<close>, a scroll event records the new offset and clears the loading
  flag, and an insertion event does exactly the same; after that a scroll event with
  \<open>hasMore\<close> set and the trigger in view emits a new load signal.
\<close>

theorem loading_reset_on_offset_change:
  assumes "isLoading this" and "offsetTop l \<noteq> elementPosition this"
  shows "startInfiniteScrollLoad l this =
           this\<lparr>elementPosition := offsetTop l, isLoading := False,
                isLoadingCleared := isLoadingCleared this + 1\<rparr>
         \<and> onDOMNodeInserted l this = startInfiniteScrollLoad l this
         \<and> (hasMore this \<and> infiniteScrollInView l' this \<longrightarrow>
              startInfiniteScrollLoad l' (startInfiniteScrollLoad l this) =
                this\<lparr>elementPosition := offsetTop l, isLoading := True,
                     isLoadingCleared := isLoadingCleared this + 1,
                     onLoadEmitted := onLoadEmitted this + 1\<rparr>)"
  using assms
  by (auto simp: startInfiniteScrollLoad_def onDOMNodeInserted_def infiniteScrollInView_def)

theorem loading_reset_on_offset_change_witness:
  "isLoading loadingAt100 \<and> offsetTop layout500 \<noteq> elementPosition loadingAt100
   \<and> startInfiniteScrollLoad layout500 loadingAt100 =
       loadingAt100\<lparr>elementPosition := 500, isLoading := False, isLoadingCleared := 1\<rparr>
   \<and> onDOMNodeInserted layout500 loadingAt100 =
       loadingAt100\<lparr>elementPosition := 500, isLoading := False, isLoadingCleared := 1\<rparr>
   \<and> onLoadEmitted (startInfiniteScrollLoad layout500 (startInfiniteScrollLoad layout500 loadingAt100)) = 2"
proof -
  have h1: "isLoading loadingAt100" by (simp add: loadingAt100_def)
  have h2: "offsetTop layout500 \<noteq> elementPosition loadingAt100"
    by (simp add: loadingAt100_def initAt100_def layout500_def)
  have v: "hasMore loadingAt100 \<and> infiniteScrollInView layout500 loadingAt100"
    by (simp add: loadingAt100_def initAt100_def layout500_def infiniteScrollInView_def)
  have o: "offsetTop layout500 = 500" by (simp add: layout500_def)
  have f: "isLoadingCleared loadingAt100 = 0" "onLoadEmitted loadingAt100 = 1"
    by (simp_all add: loadingAt100_def initAt100_def)
  note t = loading_reset_on_offset_change[OF h1 h2, of layout500]
  from t have a: "startInfiniteScrollLoad layout500 loadingAt100 =
       loadingAt100\<lparr>elementPosition := 500, isLoading := False, isLoadingCleared := 1\<rparr>"
    by (simp add: o f)
  from t have b: "onDOMNodeInserted layout500 loadingAt100
       = startInfiniteScrollLoad layout500 loadingAt100"
    by simp
  from t v have "startInfiniteScrollLoad layout500 (startInfiniteScrollLoad layout500 loadingAt100) =
       loadingAt100\<lparr>elementPosition := offsetTop layout500, isLoading := True,
                     isLoadingCleared := isLoadingCleared loadingAt100 + 1,
                     onLoadEmitted := onLoadEmitted loadingAt100 + 1\<rparr>"
    by blast
  then have c: "onLoadEmitted
      (startInfiniteScrollLoad layout500 (startInfiniteScrollLoad layout500 loadingAt100)) = 2"
    by (simp add: f)
  from h1 h2 a b c show ?thesis by simp
qed

end
